theory Spec2Isabelle
  imports Main "HOL-Library.Sublist"
begin

section \<open>Node's POSIX path functions\<close>

text \<open>
  \<^verbatim>\<open>security.ts\<close> decides everything through Node's \<^verbatim>\<open>path\<close> module
  (\<^verbatim>\<open>resolve\<close>, \<^verbatim>\<open>relative\<close>, \<^verbatim>\<open>isAbsolute\<close>, \<^verbatim>\<open>dirname\<close>,
  \<^verbatim>\<open>basename\<close>, \<^verbatim>\<open>join\<close>). The module is modelled in its POSIX flavour. Paths are
  strings; the dot-segment collapsing of \<^verbatim>\<open>normalizeString\<close> is written on the list of
  \<^verbatim>\<open>/\<close>-separated segments, which is what its character loop computes. The working
  directory \<^verbatim>\<open>process.cwd()\<close> is the explicit parameter \<open>cwd\<close>.
\<close>

text \<open>\<^verbatim>\<open>s.split('/')\<close>: the segments between separators, empty ones included.\<close>

fun split_sep :: "string \<Rightarrow> string list" where
  "split_sep [] = [[]]"
| "split_sep (c # cs) =
     (if c = CHR ''/'' then [] # split_sep cs
      else (case split_sep cs of [] \<Rightarrow> [[c]] | s # ss \<Rightarrow> (c # s) # ss))"

text \<open>\<^verbatim>\<open>segs.join('/')\<close>.\<close>

fun join_sep :: "string list \<Rightarrow> string" where
  "join_sep [] = []"
| "join_sep [s] = s"
| "join_sep (s # t # ss) = s @ CHR ''/'' # join_sep (t # ss)"

text \<open>
  One separator-terminated segment of \<^verbatim>\<open>normalizeString\<close>; \<open>res\<close> is the result so far,
  last segment first. An empty segment and \<^verbatim>\<open>.\<close> are dropped; \<^verbatim>\<open>..\<close> removes the last
  segment unless there is none or it is \<^verbatim>\<open>..\<close> itself, and is then kept only when
  \<open>allowAboveRoot\<close>; any other segment is appended.
\<close>

fun normalize_step :: "bool \<Rightarrow> string \<Rightarrow> string list \<Rightarrow> string list" where
  "normalize_step allowAboveRoot seg res =
     (if seg = [] \<or> seg = ''.'' then res
      else if seg = ''..'' then
        (case res of
           [] \<Rightarrow> (if allowAboveRoot then [''..''] else [])
         | r # rs \<Rightarrow>
             (if r = ''..'' then (if allowAboveRoot then ''..'' # r # rs else r # rs)
              else rs))
      else seg # res)"

definition normalize_segments :: "bool \<Rightarrow> string list \<Rightarrow> string list" where
  "normalize_segments allowAboveRoot segs = rev (fold (normalize_step allowAboveRoot) segs [])"

definition normalizeString :: "string \<Rightarrow> bool \<Rightarrow> string" where
  "normalizeString path allowAboveRoot =
     join_sep (normalize_segments allowAboveRoot (split_sep path))"

definition isAbsolute :: "string \<Rightarrow> bool" where
  "isAbsolute path = (case path of [] \<Rightarrow> False | c # _ \<Rightarrow> c = CHR ''/'')"

text \<open>
  \<^verbatim>\<open>path.resolve(p)\<close> with one argument: the argument, then the working directory when
  the argument is not absolute, each followed by a separator and skipped when empty; the
  result is normalized and, when absolute, given its leading separator back.
\<close>

definition path_resolve :: "string \<Rightarrow> string \<Rightarrow> string" where
  "path_resolve cwd p =
     (let r1 = (if p = [] then [] else p @ ''/'');
          (resolvedPath, resolvedAbsolute) =
            (if isAbsolute p then (r1, True)
             else if cwd = [] then (r1, False)
             else (cwd @ ''/'' @ r1, isAbsolute cwd));
          normalized = normalizeString resolvedPath (\<not> resolvedAbsolute)
      in if resolvedAbsolute then CHR ''/'' # normalized
         else if normalized \<noteq> [] then normalized else ''.'')"

text \<open>The non-empty segments of a path.\<close>

definition path_segments :: "string \<Rightarrow> string list" where
  "path_segments p = filter (\<lambda>s. s \<noteq> []) (split_sep p)"

fun common_prefix_length :: "string list \<Rightarrow> string list \<Rightarrow> nat" where
  "common_prefix_length (x # xs) (y # ys) =
     (if x = y then Suc (common_prefix_length xs ys) else 0)"
| "common_prefix_length _ _ = 0"

text \<open>
  \<^verbatim>\<open>path.relative(from, to)\<close>: empty when the arguments or their resolved forms are
  equal; otherwise one \<^verbatim>\<open>..\<close> for every segment of \<open>from\<close> below the longest common
  ancestor, followed by the segments of \<open>to\<close> below it.
\<close>

definition path_relative :: "string \<Rightarrow> string \<Rightarrow> string \<Rightarrow> string" where
  "path_relative cwd from to =
     (if from = to then []
      else
        (let from' = path_resolve cwd from; to' = path_resolve cwd to
         in if from' = to' then []
            else
              (let fs = path_segments from'; ts = path_segments to';
                   n = common_prefix_length fs ts
               in join_sep (replicate (length fs - n) ''..'' @ drop n ts))))"

text \<open>\<^verbatim>\<open>s.startsWith(pre)\<close>.\<close>

definition startsWith :: "string \<Rightarrow> string \<Rightarrow> bool" where
  "startsWith s pre = (take (length pre) s = pre)"

text \<open>
  \<^verbatim>\<open>path.dirname\<close>: scanning from the end down to index 1, trailing separators are
  skipped, then the last segment; the separator in front of it ends the result.
\<close>

definition dirname :: "string \<Rightarrow> string" where
  "dirname path =
     (if path = [] then ''.''
      else
        (let hasRoot = (hd path = CHR ''/'');
             r = dropWhile (\<lambda>c. c \<noteq> CHR ''/'')
                   (dropWhile (\<lambda>c. c = CHR ''/'') (rev (tl path)))
         in if r = [] then (if hasRoot then ''/'' else ''.'')
            else if hasRoot \<and> length r = 1 then ''//''
            else take (length r) path))"

text \<open>\<^verbatim>\<open>path.basename\<close> without a suffix: the last segment, trailing separators skipped.\<close>

definition basename :: "string \<Rightarrow> string" where
  "basename path =
     rev (takeWhile (\<lambda>c. c \<noteq> CHR ''/'') (dropWhile (\<lambda>c. c = CHR ''/'') (rev path)))"

text \<open>\<^verbatim>\<open>path.normalize\<close>.\<close>

definition path_normalize :: "string \<Rightarrow> string" where
  "path_normalize path =
     (if path = [] then ''.''
      else
        (let isAbs = isAbsolute path;
             trailingSeparator = (last path = CHR ''/'');
             p = normalizeString path (\<not> isAbs)
         in if p = [] then (if isAbs then ''/'' else if trailingSeparator then ''./'' else ''.'')
            else
              (let p' = (if trailingSeparator then p @ ''/'' else p)
               in if isAbs then CHR ''/'' # p' else p')))"

text \<open>\<^verbatim>\<open>path.join(...args)\<close>: the non-empty arguments joined by a separator, normalized.\<close>

definition path_join :: "string list \<Rightarrow> string" where
  "path_join args =
     (let joined = join_sep (filter (\<lambda>a. a \<noteq> []) args)
      in if filter (\<lambda>a. a \<noteq> []) args = [] then ''.'' else path_normalize joined)"

text \<open>A segment that normalization keeps and that holds no separator.\<close>

definition clean_segment :: "string \<Rightarrow> bool" where
  "clean_segment s = (s \<noteq> [] \<and> s \<noteq> ''.'' \<and> s \<noteq> ''..'' \<and> CHR ''/'' \<notin> set s)"

text \<open>The absolute path with the given segments.\<close>

definition absolute_path :: "string list \<Rightarrow> string" where
  "absolute_path segs = CHR ''/'' # join_sep segs"

section \<open>The policy engine (security.ts)\<close>

datatype security_mode = Strict | Permissive

text \<open>
  The module-level variables \<^verbatim>\<open>securityMode\<close>, \<^verbatim>\<open>allowedRootDirectory\<close> and
  \<^verbatim>\<open>dataDirectory\<close>; \<open>None\<close> is \<^verbatim>\<open>null\<close>. Console output is not modelled.
\<close>

record security_state =
  securityMode :: security_mode
  allowedRootDirectory :: "string option"
  dataDirectory :: "string option"

definition initial_state :: security_state where
  "initial_state = \<lparr>securityMode = Strict, allowedRootDirectory = None, dataDirectory = None\<rparr>"

text \<open>Truthiness of a \<^verbatim>\<open>string | null\<close> (or \<^verbatim>\<open>string | undefined\<close>) value.\<close>

fun truthy :: "string option \<Rightarrow> bool" where
  "truthy None = False"
| "truthy (Some s) = (s \<noteq> [])"

text \<open>\<^verbatim>\<open>String.prototype.toLowerCase\<close> on ASCII text.\<close>

definition toLowerCase :: "string \<Rightarrow> string" where
  "toLowerCase s =
     map (\<lambda>c. let n = (of_char c :: nat) in if 65 \<le> n \<and> n \<le> 90 then char_of (n + 32) else c) s"

text \<open>
  \<^verbatim>\<open>initAllowedPaths\<close>: \<open>env\<close> is \<^verbatim>\<open>process.env\<close> (\<open>None\<close> for an unset variable), \<open>st\<close>
  the module variables before the call. The mode is assigned on every call; a
  directory is assigned only when its variable is truthy.
\<close>

definition initAllowedPaths :: "(string \<rightharpoonup> string) \<Rightarrow> string \<Rightarrow> security_state \<Rightarrow> security_state" where
  "initAllowedPaths env cwd st =
     (let mode = map_option toLowerCase (env ''SECURITY_MODE'');
          st1 = (if mode = Some ''permissive'' then st\<lparr>securityMode := Permissive\<rparr>
                 else st\<lparr>securityMode := Strict\<rparr>);
          rootDir = env ''ALLOWED_ROOT_DIRECTORY'';
          st2 = (case rootDir of
                   Some d \<Rightarrow> (if d \<noteq> [] then st1\<lparr>allowedRootDirectory := Some (path_resolve cwd d)\<rparr>
                              else st1)
                 | None \<Rightarrow> st1);
          dataDir = env ''DATA_DIR''
      in (case dataDir of
            Some d \<Rightarrow> (if d \<noteq> [] then st2\<lparr>dataDirectory := Some (path_resolve cwd d)\<rparr> else st2)
          | None \<Rightarrow> st2))"

datatype errno = ENOENT | EACCES | ELOOP | ENOTDIR | ENAMETOOLONG | EIO

text \<open>
  What the code throws: \<^verbatim>\<open>PathNotAllowedError\<close> with the argument of its constructor,
  the middleware's \<^verbatim>\<open>InvalidPathTypeError\<close> with its three arguments, and the
  filesystem's \<^verbatim>\<open>ErrnoException\<close> with its \<^verbatim>\<open>code\<close>.
\<close>

datatype error =
    PathNotAllowedError string
  | InvalidPathTypeError string string string
  | ErrnoException errno

text \<open>The messages the two error classes of the repository build in their constructors.\<close>

definition pathNotAllowed_message :: "string \<Rightarrow> string" where
  "pathNotAllowed_message filePath =
     ''Path not allowed: '' @ filePath @ ''. Must be within ALLOWED_ROOT_DIRECTORY or DATA_DIR.''"


text \<open>The \<^verbatim>\<open>code\<close> property of a caught error; only an \<^verbatim>\<open>ErrnoException\<close> has one.\<close>

fun error_code :: "error \<Rightarrow> errno option" where
  "error_code (ErrnoException e) = Some e"
| "error_code _ = None"

definition isPathWithinDirectory :: "string \<Rightarrow> string \<Rightarrow> string \<Rightarrow> bool" where
  "isPathWithinDirectory cwd resolvedPath directoryPath =
     (let relativePath = path_relative cwd directoryPath resolvedPath
      in \<not> startsWith relativePath ''..'' \<and> \<not> isAbsolute relativePath)"

text \<open>
  The guard \<^verbatim>\<open>dir && isPathWithinDirectory(resolvedPath, dir)\<close> for a module variable
  \<open>dir\<close>: \<^verbatim>\<open>null\<close> and the empty string are falsy.
\<close>

definition configured_and_within :: "string \<Rightarrow> string \<Rightarrow> string option \<Rightarrow> bool" where
  "configured_and_within cwd resolvedPath dir =
     (case dir of None \<Rightarrow> False
      | Some d \<Rightarrow> d \<noteq> [] \<and> isPathWithinDirectory cwd resolvedPath d)"

text \<open>
  \<^verbatim>\<open>isPathAllowed\<close>. After the test \<^verbatim>\<open>!allowedRootDirectory\<close> the root is a non-empty
  string, so the \<open>None\<close> branch of the last case is never taken.
\<close>

definition isPathAllowed :: "security_state \<Rightarrow> string \<Rightarrow> string \<Rightarrow> bool" where
  "isPathAllowed st cwd filePath =
     (let resolvedPath = path_resolve cwd filePath
      in if configured_and_within cwd resolvedPath (dataDirectory st) then True
         else if \<not> truthy (allowedRootDirectory st) then securityMode st = Permissive
         else
           (case allowedRootDirectory st of
              None \<Rightarrow> False
            | Some root \<Rightarrow>
                if isPathWithinDirectory cwd resolvedPath root then True else False))"

definition validatePath :: "security_state \<Rightarrow> string \<Rightarrow> string \<Rightarrow> error + string" where
  "validatePath st cwd filePath =
     (let resolvedPath = path_resolve cwd filePath
      in if \<not> isPathAllowed st cwd resolvedPath then Inl (PathNotAllowedError filePath)
         else Inr resolvedPath)"

subsection \<open>Symlink-aware validation\<close>

text \<open>
  The two synchronous filesystem calls the validator makes are parameters: \<open>lstatSync\<close>
  reports the kind of an entry without following a final symbolic link,
  \<open>realpathSync\<close> the path with every symbolic link followed; both fail with an
  \<^verbatim>\<open>ErrnoException\<close>.
\<close>

datatype file_kind = RegularFile | Directory | SymbolicLink

record filesystem =
  lstatSync :: "string \<Rightarrow> errno + file_kind"
  realpathSync :: "string \<Rightarrow> errno + string"

text \<open>The body of the outer \<^verbatim>\<open>try\<close>.\<close>

definition check_existing :: "security_state \<Rightarrow> filesystem \<Rightarrow> string \<Rightarrow> string \<Rightarrow> string \<Rightarrow> error + string" where
  "check_existing st fs cwd filePath resolvedPath =
     (case lstatSync fs resolvedPath of
        Inl e \<Rightarrow> Inl (ErrnoException e)
      | Inr lstats \<Rightarrow>
          (case realpathSync fs resolvedPath of
             Inl e \<Rightarrow> Inl (ErrnoException e)
           | Inr realPath \<Rightarrow>
               if \<not> isPathAllowed st cwd realPath then
                 Inl (PathNotAllowedError
                        (filePath @ '' (resolves to '' @ realPath @ '' via symlink)''))
               else Inr realPath))"

text \<open>The body of the inner \<^verbatim>\<open>try\<close>, for a path that does not exist.\<close>

definition check_parent :: "security_state \<Rightarrow> filesystem \<Rightarrow> string \<Rightarrow> string \<Rightarrow> string \<Rightarrow> error + string" where
  "check_parent st fs cwd filePath resolvedPath =
     (let parentDir = dirname resolvedPath
      in case realpathSync fs parentDir of
           Inl e \<Rightarrow> Inl (ErrnoException e)
         | Inr realParentPath \<Rightarrow>
             if \<not> isPathAllowed st cwd realParentPath then
               Inl (PathNotAllowedError
                      (filePath @ '' (parent resolves to '' @ realParentPath @ '')''))
             else Inr (path_join [realParentPath, basename resolvedPath]))"

text \<open>
  \<^verbatim>\<open>validatePathWithSymlinkCheck(filePath, options)\<close>; \<open>requireExists\<close> is the optional
  field of \<open>options\<close>, \<open>None\<close> when the caller leaves it out.
\<close>

definition validatePathWithSymlinkCheck ::
  "security_state \<Rightarrow> filesystem \<Rightarrow> string \<Rightarrow> string \<Rightarrow> bool option \<Rightarrow> error + string" where
  "validatePathWithSymlinkCheck st fs cwd filePath requireExistsOpt =
     (let requireExists = (case requireExistsOpt of None \<Rightarrow> True | Some b \<Rightarrow> b);
          resolvedPath = path_resolve cwd filePath
      in case check_existing st fs cwd filePath resolvedPath of
           Inr realPath \<Rightarrow> Inr realPath
         | Inl error \<Rightarrow>
             if error_code error = Some ENOENT then
               (if requireExists then Inl error
                else
                  (case check_parent st fs cwd filePath resolvedPath of
                     Inr p \<Rightarrow> Inr p
                   | Inl parentError \<Rightarrow>
                       if error_code parentError = Some ENOENT then validatePath st cwd filePath
                       else Inl parentError))
             else Inl error)"

subsection \<open>The nearest existing ancestor\<close>

text \<open>
  The directories above a resolved path, nearest first; \<open>dirname\<close> shortens a path until
  it reaches the root, so the length of the path bounds the walk.
\<close>

fun ancestors_upto :: "nat \<Rightarrow> string \<Rightarrow> string list" where
  "ancestors_upto 0 p = []"
| "ancestors_upto (Suc n) p =
     (let d = dirname p in if d = p then [] else d # ancestors_upto n d)"

definition ancestor_dirs :: "string \<Rightarrow> string list" where
  "ancestor_dirs p = ancestors_upto (length p) p"

definition nearest_existing_ancestor :: "filesystem \<Rightarrow> string \<Rightarrow> string option" where
  "nearest_existing_ancestor fs resolvedPath =
     find (\<lambda>d. case realpathSync fs d of Inl e \<Rightarrow> False | Inr r \<Rightarrow> True)
       (ancestor_dirs resolvedPath)"

fun is_PathNotAllowed :: "error + string \<Rightarrow> bool" where
  "is_PathNotAllowed (Inl (PathNotAllowedError m)) = True"
| "is_PathNotAllowed _ = False"

text \<open>
  The behaviour the specification describes for a missing path with
  \<^verbatim>\<open>requireExists: false\<close>: the real path of the nearest existing ancestor is validated,
  and the result is the remainder of the path re-attached under that real path.
\<close>

definition validates_nearest_ancestor :: "security_state \<Rightarrow> filesystem \<Rightarrow> string \<Rightarrow> string \<Rightarrow> bool" where
  "validates_nearest_ancestor st fs cwd filePath =
     (let resolvedPath = path_resolve cwd filePath;
          result = validatePathWithSymlinkCheck st fs cwd filePath (Some False)
      in case nearest_existing_ancestor fs resolvedPath of
           None \<Rightarrow> True
         | Some ancestor \<Rightarrow>
             (case realpathSync fs ancestor of
                Inl e \<Rightarrow> True
              | Inr realAncestor \<Rightarrow>
                  if isPathAllowed st cwd realAncestor then
                    result = Inr (path_join [realAncestor, path_relative cwd ancestor resolvedPath])
                  else is_PathNotAllowed result))"

text \<open>
  A filesystem given by two tables keyed by resolved paths: the entries \<open>lstatSync\<close>
  finds, and the real paths \<open>realpathSync\<close> finds; every other resolved path fails with
  \<^verbatim>\<open>ENOENT\<close>. The validator calls both on resolved paths only.
\<close>

definition table_fs :: "(string \<times> file_kind) list \<Rightarrow> (string \<times> string) list \<Rightarrow> filesystem" where
  "table_fs entries reals =
     \<lparr>lstatSync = (\<lambda>p. case map_of entries p of None \<Rightarrow> Inl ENOENT | Some k \<Rightarrow> Inr k),
      realpathSync = (\<lambda>p. case map_of reals p of None \<Rightarrow> Inl ENOENT | Some r \<Rightarrow> Inr r)\<rparr>"

section \<open>The mediating adapter (the secure file system adapter)\<close>

text \<open>
  Every adapter function validates and then returns the promise of one
  \<^verbatim>\<open>fs/promises\<close> call. The model returns that call with its arguments (\<open>Inr\<close>), or the
  error thrown before any such call was made (\<open>Inl\<close>). An optional argument left out is
  \<open>None\<close>.
\<close>

type_synonym mkdir_options = "bool option \<times> nat option"
type_synonym readdir_options = "bool option \<times> string option"
type_synonym rm_options = "bool option \<times> bool option"

datatype fs_call =
    FsAccess string "nat option"
  | FsReadFile string "string option"
  | FsWriteFile string string "string option"
  | FsMkdir string "mkdir_options option"
  | FsReaddir string bool
  | FsStat string
  | FsRm string "rm_options option"
  | FsUnlink string
  | FsCopyFile string string "nat option"
  | FsAppendFile string string "string option"
  | FsRename string string
  | FsLstat string

definition access :: "security_state \<Rightarrow> filesystem \<Rightarrow> string \<Rightarrow> string \<Rightarrow> nat option \<Rightarrow> error + fs_call" where
  "access st fs cwd filePath mode =
     (case validatePathWithSymlinkCheck st fs cwd filePath None of
        Inl e \<Rightarrow> Inl e
      | Inr validatedPath \<Rightarrow> Inr (FsAccess validatedPath mode))"

definition readFile :: "security_state \<Rightarrow> filesystem \<Rightarrow> string \<Rightarrow> string \<Rightarrow> string option \<Rightarrow> error + fs_call" where
  "readFile st fs cwd filePath encoding =
     (case validatePathWithSymlinkCheck st fs cwd filePath None of
        Inl e \<Rightarrow> Inl e
      | Inr validatedPath \<Rightarrow>
          if truthy encoding then Inr (FsReadFile validatedPath encoding)
          else Inr (FsReadFile validatedPath None))"

definition writeFile :: "security_state \<Rightarrow> filesystem \<Rightarrow> string \<Rightarrow> string \<Rightarrow> string \<Rightarrow> string option \<Rightarrow> error + fs_call" where
  "writeFile st fs cwd filePath data encoding =
     (case validatePathWithSymlinkCheck st fs cwd filePath (Some False) of
        Inl e \<Rightarrow> Inl e
      | Inr validatedPath \<Rightarrow> Inr (FsWriteFile validatedPath data encoding))"

definition mkdir :: "security_state \<Rightarrow> filesystem \<Rightarrow> string \<Rightarrow> string \<Rightarrow> mkdir_options option \<Rightarrow> error + fs_call" where
  "mkdir st fs cwd dirPath options =
     (case validatePathWithSymlinkCheck st fs cwd dirPath (Some False) of
        Inl e \<Rightarrow> Inl e
      | Inr validatedPath \<Rightarrow> Inr (FsMkdir validatedPath options))"

definition readdir :: "security_state \<Rightarrow> filesystem \<Rightarrow> string \<Rightarrow> string \<Rightarrow> readdir_options option \<Rightarrow> error + fs_call" where
  "readdir st fs cwd dirPath options =
     (case validatePathWithSymlinkCheck st fs cwd dirPath None of
        Inl e \<Rightarrow> Inl e
      | Inr validatedPath \<Rightarrow>
          if map_option fst options = Some (Some True) then Inr (FsReaddir validatedPath True)
          else Inr (FsReaddir validatedPath False))"

definition stat :: "security_state \<Rightarrow> filesystem \<Rightarrow> string \<Rightarrow> string \<Rightarrow> error + fs_call" where
  "stat st fs cwd filePath =
     (case validatePathWithSymlinkCheck st fs cwd filePath None of
        Inl e \<Rightarrow> Inl e
      | Inr validatedPath \<Rightarrow> Inr (FsStat validatedPath))"

definition rm :: "security_state \<Rightarrow> filesystem \<Rightarrow> string \<Rightarrow> string \<Rightarrow> rm_options option \<Rightarrow> error + fs_call" where
  "rm st fs cwd filePath options =
     (case validatePathWithSymlinkCheck st fs cwd filePath None of
        Inl e \<Rightarrow> Inl e
      | Inr validatedPath \<Rightarrow> Inr (FsRm validatedPath options))"

definition unlink :: "security_state \<Rightarrow> filesystem \<Rightarrow> string \<Rightarrow> string \<Rightarrow> error + fs_call" where
  "unlink st fs cwd filePath =
     (case validatePathWithSymlinkCheck st fs cwd filePath None of
        Inl e \<Rightarrow> Inl e
      | Inr validatedPath \<Rightarrow> Inr (FsUnlink validatedPath))"

definition copyFile :: "security_state \<Rightarrow> filesystem \<Rightarrow> string \<Rightarrow> string \<Rightarrow> string \<Rightarrow> nat option \<Rightarrow> error + fs_call" where
  "copyFile st fs cwd src dest mode =
     (case validatePathWithSymlinkCheck st fs cwd src None of
        Inl e \<Rightarrow> Inl e
      | Inr validatedSrc \<Rightarrow>
          (case validatePathWithSymlinkCheck st fs cwd dest (Some False) of
             Inl e \<Rightarrow> Inl e
           | Inr validatedDest \<Rightarrow> Inr (FsCopyFile validatedSrc validatedDest mode)))"

definition appendFile :: "security_state \<Rightarrow> filesystem \<Rightarrow> string \<Rightarrow> string \<Rightarrow> string \<Rightarrow> string option \<Rightarrow> error + fs_call" where
  "appendFile st fs cwd filePath data encoding =
     (case validatePathWithSymlinkCheck st fs cwd filePath (Some False) of
        Inl e \<Rightarrow> Inl e
      | Inr validatedPath \<Rightarrow> Inr (FsAppendFile validatedPath data encoding))"

definition rename :: "security_state \<Rightarrow> filesystem \<Rightarrow> string \<Rightarrow> string \<Rightarrow> string \<Rightarrow> error + fs_call" where
  "rename st fs cwd oldPath newPath =
     (case validatePathWithSymlinkCheck st fs cwd oldPath None of
        Inl e \<Rightarrow> Inl e
      | Inr validatedOldPath \<Rightarrow>
          (case validatePathWithSymlinkCheck st fs cwd newPath (Some False) of
             Inl e \<Rightarrow> Inl e
           | Inr validatedNewPath \<Rightarrow> Inr (FsRename validatedOldPath validatedNewPath)))"

definition lstat :: "security_state \<Rightarrow> string \<Rightarrow> string \<Rightarrow> error + fs_call" where
  "lstat st cwd filePath =
     (case validatePath st cwd filePath of
        Inl e \<Rightarrow> Inl e
      | Inr validatedPath \<Rightarrow> Inr (FsLstat validatedPath))"

text \<open>The path arguments of a filesystem call, in order.\<close>

fun call_paths :: "fs_call \<Rightarrow> string list" where
  "call_paths (FsAccess p m) = [p]"
| "call_paths (FsReadFile p enc) = [p]"
| "call_paths (FsWriteFile p dat enc) = [p]"
| "call_paths (FsMkdir p opts) = [p]"
| "call_paths (FsReaddir p w) = [p]"
| "call_paths (FsStat p) = [p]"
| "call_paths (FsRm p opts) = [p]"
| "call_paths (FsUnlink p) = [p]"
| "call_paths (FsCopyFile p p' m) = [p, p']"
| "call_paths (FsAppendFile p dat enc) = [p]"
| "call_paths (FsRename p p') = [p, p']"
| "call_paths (FsLstat p) = [p]"

text \<open>
  The outcome of an adapter function reduced to what matters for confinement: the error
  thrown with no call issued, or the path arguments of the call issued.
\<close>

definition issued_paths :: "error + fs_call \<Rightarrow> error + string list" where
  "issued_paths r = map_sum id call_paths r"

section \<open>The path middleware (validate-paths.ts)\<close>

















section \<open>Containment as the specification words it\<close>

text \<open>
  The specification calls a path contained in a boundary when the ancestor chain of its
  resolved form includes the boundary directory: the segments of the resolved boundary are
  a prefix of the segments of the resolved path, the boundary itself included.
\<close>

definition resolved_segments :: "string \<Rightarrow> string \<Rightarrow> string list" where
  "resolved_segments cwd p = path_segments (path_resolve cwd p)"

definition spec_contained :: "string \<Rightarrow> string \<Rightarrow> string \<Rightarrow> bool" where
  "spec_contained cwd p dir = prefix (resolved_segments cwd dir) (resolved_segments cwd p)"

text \<open>Contained in a boundary variable that is configured.\<close>

definition spec_contained_in :: "string \<Rightarrow> string \<Rightarrow> string option \<Rightarrow> bool" where
  "spec_contained_in cwd p dir =
     (case dir of None \<Rightarrow> False | Some d \<Rightarrow> d \<noteq> [] \<and> spec_contained cwd p d)"

text \<open>
  The specification's rule: a path is allowed if and only if it is contained in the data
  directory, or contained in the allowed root directory, or the allowed root directory is
  unset and the mode is permissive.
\<close>

definition spec_isAllowed :: "security_state \<Rightarrow> string \<Rightarrow> string \<Rightarrow> bool" where
  "spec_isAllowed st cwd p =
     (spec_contained_in cwd p (dataDirectory st)
      \<or> spec_contained_in cwd p (allowedRootDirectory st)
      \<or> (\<not> truthy (allowedRootDirectory st) \<and> securityMode st = Permissive))"

section \<open>Example configurations\<close>

text \<open>Concrete states, a filesystem, an environment and a request body for the examples.\<close>

definition strict_data_only :: security_state where
  "strict_data_only =
     \<lparr>securityMode = Strict, allowedRootDirectory = None, dataDirectory = Some ''/data''\<rparr>"

definition strict_allowed :: security_state where
  "strict_allowed =
     \<lparr>securityMode = Strict, allowedRootDirectory = Some ''/allowed'', dataDirectory = None\<rparr>"

text \<open>An environment with a misspelt mode, a relative root and an empty data directory.\<close>

definition env_example :: "string \<rightharpoonup> string" where
  "env_example =
     [''SECURITY_MODE'' \<mapsto> ''Permisive'', ''ALLOWED_ROOT_DIRECTORY'' \<mapsto> ''projects'',
      ''DATA_DIR'' \<mapsto> []]"

text \<open>
  A filesystem where \<^verbatim>\<open>/allowed/link\<close> is a symbolic link to the directory \<^verbatim>\<open>/etc\<close>,
  and \<^verbatim>\<open>/allowed/notes.txt\<close> a regular file.
\<close>

definition linked_fs :: filesystem where
  "linked_fs = table_fs
     [(''/'', Directory), (''/allowed'', Directory), (''/etc'', Directory),
      (''/allowed/link'', SymbolicLink), (''/allowed/notes.txt'', RegularFile)]
     [(''/'', ''/''), (''/allowed'', ''/allowed''), (''/etc'', ''/etc''),
      (''/allowed/link'', ''/etc''), (''/allowed/notes.txt'', ''/allowed/notes.txt'')]"




section \<open>Properties of the path functions\<close>

lemma split_sep_not_Nil: "split_sep s \<noteq> []"
  by (induction s) (auto split: list.splits)

lemma split_sep_append: "split_sep (a @ CHR ''/'' # b) = split_sep a @ split_sep b"
proof (induction a)
  case Nil
  show ?case by simp
next
  case (Cons c a)
  obtain s ss where s: "split_sep a = s # ss"
    using split_sep_not_Nil [of a] by (cases "split_sep a") auto
  with Cons show ?case by simp
qed

lemma split_sep_no_sep: "CHR ''/'' \<notin> set s \<Longrightarrow> split_sep s = [s]"
  by (induction s) auto

lemma split_sep_segments: "s \<in> set (split_sep p) \<Longrightarrow> CHR ''/'' \<notin> set s"
proof (induction p arbitrary: s)
  case Nil
  then show ?case by simp
next
  case (Cons c p)
  obtain t ts where t: "split_sep p = t # ts"
    using split_sep_not_Nil [of p] by (cases "split_sep p") auto
  show ?case
  proof (cases "c = CHR ''/''")
    case True
    with Cons show ?thesis by auto
  next
    case False
    with Cons.prems t have "s = c # t \<or> s \<in> set ts" by auto
    with Cons.IH t False show ?thesis by auto
  qed
qed

lemma split_join:
  "segs \<noteq> [] \<Longrightarrow> \<forall>s \<in> set segs. CHR ''/'' \<notin> set s \<Longrightarrow> split_sep (join_sep segs) = segs"
proof (induction segs rule: join_sep.induct)
  case 1
  then show ?case by simp
next
  case (2 s)
  then show ?case by (simp add: split_sep_no_sep)
next
  case (3 s t ss)
  then show ?case by (simp add: split_sep_append split_sep_no_sep)
qed

declare normalize_step.simps [simp del]

lemma normalize_step_clean_segment:
  "clean_segment seg \<Longrightarrow> normalize_step a seg acc = seg # acc"
  by (simp add: normalize_step.simps clean_segment_def)

lemma fold_normalize_clean:
  "\<forall>s \<in> set segs. clean_segment s \<Longrightarrow>
   fold (normalize_step a) segs acc = rev segs @ acc"
  by (induction segs arbitrary: acc) (simp_all add: normalize_step_clean_segment)

lemma normalize_step_cases:
  "normalize_step False seg acc = acc \<or> normalize_step False seg acc = tl acc
   \<or> (normalize_step False seg acc = seg # acc \<and> seg \<noteq> [] \<and> seg \<noteq> ''.'' \<and> seg \<noteq> ''..'')"
  by (cases acc) (simp_all add: normalize_step.simps)

lemma normalize_step_clean:
  assumes "CHR ''/'' \<notin> set seg" and "\<forall>s \<in> set acc. clean_segment s"
  shows "\<forall>s \<in> set (normalize_step False seg acc). clean_segment s"
proof -
  have tl: "\<forall>s \<in> set (tl acc). clean_segment s"
    using assms(2) by (cases acc) simp_all
  from normalize_step_cases [of seg acc] show ?thesis
  proof (elim disjE conjE)
    assume "normalize_step False seg acc = acc"
    with assms(2) show ?thesis by simp
  next
    assume "normalize_step False seg acc = tl acc"
    with tl show ?thesis by simp
  next
    assume "normalize_step False seg acc = seg # acc" "seg \<noteq> []" "seg \<noteq> ''.''" "seg \<noteq> ''..''"
    with assms show ?thesis by (simp add: clean_segment_def)
  qed
qed

lemma fold_normalize_step_clean:
  "\<forall>s \<in> set segs. CHR ''/'' \<notin> set s \<Longrightarrow> \<forall>s \<in> set acc. clean_segment s \<Longrightarrow>
   \<forall>s \<in> set (fold (normalize_step False) segs acc). clean_segment s"
proof (induction segs arbitrary: acc)
  case Nil
  then show ?case by simp
next
  case (Cons x xs)
  have "\<forall>s \<in> set (normalize_step False x acc). clean_segment s"
    using Cons.prems by (intro normalize_step_clean) auto
  with Cons show ?case by simp
qed

lemma normalize_segments_clean:
  "\<forall>s \<in> set (normalize_segments False (split_sep p)). clean_segment s"
  unfolding normalize_segments_def set_rev
  by (rule fold_normalize_step_clean) (auto dest: split_sep_segments)


lemma normalize_step_empty: "normalize_step a [] acc = acc"
  by (simp add: normalize_step.simps)

lemma normalize_segments_clean_id:
  assumes "\<forall>s \<in> set segs. clean_segment s"
  shows "normalize_segments a ([] # segs @ [[]]) = segs"
  using assms by (simp add: normalize_segments_def normalize_step_empty fold_normalize_clean)

lemma split_join_clean:
  assumes "\<forall>s \<in> set segs. clean_segment s" and "segs \<noteq> []"
  shows "split_sep (join_sep segs) = segs"
proof -
  have "\<forall>s \<in> set segs. CHR ''/'' \<notin> set s"
    using assms(1) by (simp add: clean_segment_def)
  with assms(2) show ?thesis by (simp add: split_join)
qed

lemma split_sep_root_join:
  assumes "\<forall>s \<in> set segs. clean_segment s"
  shows "split_sep (CHR ''/'' # join_sep segs) = (if segs = [] then [[], []] else [] # segs)"
  using assms by (simp add: split_join_clean)

lemma path_segments_root_join:
  assumes "\<forall>s \<in> set segs. clean_segment s"
  shows "path_segments (CHR ''/'' # join_sep segs) = segs"
proof -
  have "filter (\<lambda>s. s \<noteq> []) segs = segs"
    using assms by (simp add: clean_segment_def filter_id_conv)
  then show ?thesis
    using assms unfolding path_segments_def split_sep_root_join [OF assms] by simp
qed

lemma path_resolve_absolute_arg:
  "isAbsolute p \<Longrightarrow>
   path_resolve cwd p = CHR ''/'' # join_sep (normalize_segments False (split_sep (p @ ''/'')))"
  by (cases p) (simp_all add: path_resolve_def isAbsolute_def normalizeString_def)

lemma path_resolve_relative_arg:
  "\<not> isAbsolute p \<Longrightarrow> isAbsolute cwd \<Longrightarrow>
   path_resolve cwd p =
     CHR ''/'' # join_sep (normalize_segments False
       (split_sep (cwd @ ''/'' @ (if p = [] then [] else p @ ''/''))))"
  by (cases cwd) (simp_all add: path_resolve_def isAbsolute_def normalizeString_def)

lemma path_resolve_shape:
  assumes "isAbsolute cwd \<or> isAbsolute p"
  shows "\<exists>segs. (\<forall>s \<in> set segs. clean_segment s) \<and> path_resolve cwd p = CHR ''/'' # join_sep segs"
proof (cases "isAbsolute p")
  case True
  then show ?thesis
    using normalize_segments_clean [of "p @ ''/''"] path_resolve_absolute_arg [of p cwd]
    by blast
next
  case False
  with assms have "isAbsolute cwd" by simp
  with False show ?thesis
    using normalize_segments_clean [of "cwd @ ''/'' @ (if p = [] then [] else p @ ''/'')"]
      path_resolve_relative_arg [of p cwd]
    by blast
qed

lemma path_resolve_root_join:
  assumes "\<forall>s \<in> set segs. clean_segment s"
  shows "path_resolve cwd (CHR ''/'' # join_sep segs) = CHR ''/'' # join_sep segs"
proof -
  have abs: "isAbsolute (CHR ''/'' # join_sep segs)"
    by (simp add: isAbsolute_def)
  have "split_sep ((CHR ''/'' # join_sep segs) @ ''/'') =
        split_sep (CHR ''/'' # join_sep segs) @ [[]]"
    using split_sep_append [of "CHR ''/'' # join_sep segs" "[]"] by simp
  also have "\<dots> = (if segs = [] then [[], [], []] else [] # segs @ [[]])"
    unfolding split_sep_root_join [OF assms] by simp
  finally have sp: "split_sep ((CHR ''/'' # join_sep segs) @ ''/'') =
      (if segs = [] then [[], [], []] else [] # segs @ [[]])" .
  have "normalize_segments False (split_sep ((CHR ''/'' # join_sep segs) @ ''/'')) = segs"
  proof (cases "segs = []")
    case True
    with sp show ?thesis by (simp add: normalize_segments_def normalize_step_empty)
  next
    case False
    with sp assms show ?thesis by (simp add: normalize_segments_clean_id)
  qed
  with path_resolve_absolute_arg [OF abs] show ?thesis by simp
qed

lemma path_resolve_idem:
  assumes "isAbsolute cwd \<or> isAbsolute p"
  shows "path_resolve cwd (path_resolve cwd p) = path_resolve cwd p"
proof -
  from path_resolve_shape [OF assms] obtain segs where
    "\<forall>s \<in> set segs. clean_segment s" "path_resolve cwd p = CHR ''/'' # join_sep segs"
    by blast
  then show ?thesis by (simp add: path_resolve_root_join)
qed

lemma path_resolve_isAbsolute:
  assumes "isAbsolute cwd \<or> isAbsolute p"
  shows "isAbsolute (path_resolve cwd p)"
  using path_resolve_shape [OF assms] by (auto simp: isAbsolute_def)

lemma requireExists_default:
  "validatePathWithSymlinkCheck st fs cwd p None = validatePathWithSymlinkCheck st fs cwd p (Some True)"
  by (simp add: validatePathWithSymlinkCheck_def)


lemma common_prefix_length_le: "common_prefix_length xs ys \<le> length xs"
  by (induction xs ys rule: common_prefix_length.induct) simp_all

lemma common_prefix_length_prefix:
  "common_prefix_length xs ys = length xs \<longleftrightarrow> prefix xs ys"
  by (induction xs ys rule: common_prefix_length.induct) auto

lemma common_prefix_length_same: "common_prefix_length xs xs = length xs"
  by (simp add: common_prefix_length_prefix)

lemma path_relative_resolved:
  assumes "\<forall>s \<in> set bs. clean_segment s" and "\<forall>s \<in> set cs. clean_segment s"
  shows "path_relative cwd (absolute_path bs) (absolute_path cs) =
           join_sep (replicate (length bs - common_prefix_length bs cs) ''..''
                     @ drop (common_prefix_length bs cs) cs)"
proof (cases "bs = cs")
  case True
  then show ?thesis
    by (simp add: path_relative_def common_prefix_length_same)
next
  case False
  have neq: "absolute_path bs \<noteq> absolute_path cs"
  proof
    assume "absolute_path bs = absolute_path cs"
    then have "path_segments (absolute_path bs) = path_segments (absolute_path cs)" by simp
    with assms have "bs = cs"
      by (simp add: absolute_path_def path_segments_root_join)
    with False show False by simp
  qed
  have rb: "path_resolve cwd (absolute_path bs) = absolute_path bs"
    and rc: "path_resolve cwd (absolute_path cs) = absolute_path cs"
    using assms by (simp_all add: absolute_path_def path_resolve_root_join)
  have sb: "path_segments (absolute_path bs) = bs" and sc: "path_segments (absolute_path cs) = cs"
    using assms by (simp_all add: absolute_path_def path_segments_root_join)
  show ?thesis
    unfolding path_relative_def rb rc sb sc Let_def using neq by simp
qed

lemma startsWith_dots_join:
  "startsWith (join_sep (s # ss)) ''..'' \<longleftrightarrow> startsWith s ''..''"
proof (cases ss)
  case Nil
  then show ?thesis by simp
next
  case (Cons t ts)
  show ?thesis
  proof (cases s)
    case Nil
    with Cons show ?thesis by (simp add: startsWith_def)
  next
    case c1: (Cons a s')
    show ?thesis
    proof (cases s')
      case Nil
      with c1 Cons show ?thesis by (simp add: startsWith_def)
    next
      case (Cons b s'')
      with c1 \<open>ss = t # ts\<close> show ?thesis by (simp add: startsWith_def)
    qed
  qed
qed

lemma startsWith_dots_ups: "startsWith (join_sep (''..'' # ss)) ''..''"
  by (simp add: startsWith_dots_join) (simp add: startsWith_def)

lemma isAbsolute_join_clean:
  "clean_segment s \<Longrightarrow> \<not> isAbsolute (join_sep (s # ss))"
  by (cases ss; cases s) (auto simp: isAbsolute_def clean_segment_def)

lemma isPathWithinDirectory_resolved:
  assumes "\<forall>s \<in> set bs. clean_segment s" and "\<forall>s \<in> set cs. clean_segment s"
  shows "isPathWithinDirectory cwd (absolute_path cs) (absolute_path bs) \<longleftrightarrow>
           prefix bs cs \<and>
           (case drop (length bs) cs of [] \<Rightarrow> True | s # rest \<Rightarrow> \<not> startsWith s ''..'')"
proof (cases "prefix bs cs")
  case True
  then have n: "common_prefix_length bs cs = length bs"
    by (simp add: common_prefix_length_prefix)
  have rel: "path_relative cwd (absolute_path bs) (absolute_path cs) = join_sep (drop (length bs) cs)"
    using path_relative_resolved [OF assms, of cwd] n by simp
  show ?thesis
  proof (cases "drop (length bs) cs")
    case Nil
    with True rel show ?thesis
      by (simp add: isPathWithinDirectory_def startsWith_def isAbsolute_def)
  next
    case (Cons s rest)
    then have "s \<in> set cs" by (metis in_set_dropD list.set_intros(1))
    with assms(2) have "clean_segment s" by simp
    with True rel Cons show ?thesis
      by (simp add: isPathWithinDirectory_def startsWith_dots_join isAbsolute_join_clean)
  qed
next
  case False
  then have "common_prefix_length bs cs \<noteq> length bs"
    by (simp add: common_prefix_length_prefix)
  with common_prefix_length_le [of bs cs]
  have "0 < length bs - common_prefix_length bs cs" by simp
  then obtain k where k: "length bs - common_prefix_length bs cs = Suc k"
    by (cases "length bs - common_prefix_length bs cs") simp_all
  have "startsWith (path_relative cwd (absolute_path bs) (absolute_path cs)) ''..''"
    unfolding path_relative_resolved [OF assms] k
    using startsWith_dots_ups by simp
  with False show ?thesis
    by (simp add: isPathWithinDirectory_def)
qed

lemma path_relative_resolve:
  assumes "isAbsolute cwd"
  shows "path_relative cwd b c = path_relative cwd (path_resolve cwd b) (path_resolve cwd c)"
proof -
  have idem: "\<And>x. path_resolve cwd (path_resolve cwd x) = path_resolve cwd x"
    using assms by (simp add: path_resolve_idem)
  show ?thesis
    by (auto simp: path_relative_def idem Let_def)
qed

lemma resolved_segments_clean:
  assumes "isAbsolute cwd"
  shows "(\<forall>s \<in> set (resolved_segments cwd p). clean_segment s)
       \<and> path_resolve cwd p = absolute_path (resolved_segments cwd p)"
proof -
  from path_resolve_shape [of cwd p] assms obtain segs where
    segs: "\<forall>s \<in> set segs. clean_segment s" "path_resolve cwd p = CHR ''/'' # join_sep segs"
    by blast
  then have "resolved_segments cwd p = segs"
    by (simp add: resolved_segments_def path_segments_root_join)
  with segs show ?thesis by (simp add: absolute_path_def)
qed

lemma resolved_segments_resolve:
  assumes "isAbsolute cwd"
  shows "resolved_segments cwd (path_resolve cwd p) = resolved_segments cwd p"
  using assms by (simp add: resolved_segments_def path_resolve_idem)

lemma isPathWithinDirectory_segments:
  assumes "isAbsolute cwd"
  shows "isPathWithinDirectory cwd c b \<longleftrightarrow>
           prefix (resolved_segments cwd b) (resolved_segments cwd c) \<and>
           (case drop (length (resolved_segments cwd b)) (resolved_segments cwd c) of
              [] \<Rightarrow> True | s # rest \<Rightarrow> \<not> startsWith s ''..'')"
proof -
  note b = resolved_segments_clean [OF assms, of b] and c = resolved_segments_clean [OF assms, of c]
  have "isPathWithinDirectory cwd c b =
      isPathWithinDirectory cwd (absolute_path (resolved_segments cwd c))
        (absolute_path (resolved_segments cwd b))"
    unfolding isPathWithinDirectory_def path_relative_resolve [OF assms, of b c]
    using b c by simp
  also have "\<dots> \<longleftrightarrow> prefix (resolved_segments cwd b) (resolved_segments cwd c) \<and>
           (case drop (length (resolved_segments cwd b)) (resolved_segments cwd c) of
              [] \<Rightarrow> True | s # rest \<Rightarrow> \<not> startsWith s ''..'')"
    using b c by (intro isPathWithinDirectory_resolved) simp_all
  finally show ?thesis .
qed



lemma validatePath_accepted_idem:
  assumes "isAbsolute cwd" and "validatePath st cwd p = Inr r"
  shows "validatePath st cwd r = Inr r"
proof -
  have idem: "path_resolve cwd (path_resolve cwd p) = path_resolve cwd p"
    using assms(1) by (simp add: path_resolve_idem)
  from assms(2) show ?thesis
    by (auto simp: validatePath_def Let_def idem split: if_splits)
qed


lemma spec_contained_resolve:
  assumes "isAbsolute cwd"
  shows "spec_contained cwd (path_resolve cwd p) d = spec_contained cwd p d"
  using assms by (simp add: spec_contained_def resolved_segments_resolve)

lemma spec_isAllowed_resolve:
  assumes "isAbsolute cwd"
  shows "spec_isAllowed st cwd (path_resolve cwd p) = spec_isAllowed st cwd p"
  using assms
  by (simp add: spec_isAllowed_def spec_contained_in_def spec_contained_resolve
      cong: option.case_cong)

lemma isPathAllowed_complete_unless_dotdot:
  assumes "isAbsolute cwd" and "spec_isAllowed st cwd p" and "\<not> isPathAllowed st cwd p"
  shows "\<exists>d s rest. (dataDirectory st = Some d \<or> allowedRootDirectory st = Some d)
           \<and> drop (length (resolved_segments cwd d)) (resolved_segments cwd p) = s # rest
           \<and> startsWith s ''..''"
proof -
  have w: "\<And>d. spec_contained cwd p d \<Longrightarrow> \<not> isPathWithinDirectory cwd (path_resolve cwd p) d \<Longrightarrow>
      \<exists>s rest. drop (length (resolved_segments cwd d)) (resolved_segments cwd p) = s # rest
           \<and> startsWith s ''..''"
    using assms(1)
    by (auto simp: isPathWithinDirectory_segments spec_contained_def resolved_segments_resolve
        split: list.splits)
  from assms(2,3) show ?thesis
    unfolding isPathAllowed_def spec_isAllowed_def spec_contained_in_def
      configured_and_within_def Let_def
    by (auto split: option.splits if_splits dest!: w)
qed

lemma validatePath_rejects_only_dotdot:
  assumes "isAbsolute cwd" and "spec_isAllowed st cwd p" and "validatePath st cwd p = Inl e"
  shows "\<exists>d s rest. (dataDirectory st = Some d \<or> allowedRootDirectory st = Some d)
           \<and> drop (length (resolved_segments cwd d)) (resolved_segments cwd p) = s # rest
           \<and> startsWith s ''..''"
proof -
  from assms(3) have "\<not> isPathAllowed st cwd (path_resolve cwd p)"
    by (simp add: validatePath_def Let_def split: if_splits)
  moreover have "spec_isAllowed st cwd (path_resolve cwd p)"
    using assms(1,2) by (simp add: spec_isAllowed_resolve)
  ultimately show ?thesis
    using isPathAllowed_complete_unless_dotdot [OF assms(1), of st "path_resolve cwd p"]
    by (simp add: resolved_segments_resolve [OF assms(1)])
qed

section \<open>Theorems\<close>

text \<open>
  Claim C6. For every path string \<open>p\<close>, \<^verbatim>\<open>validatePath(p)\<close> returns the resolved absolute form
  of \<open>p\<close> exactly when \<^verbatim>\<open>isPathAllowed\<close> holds of that resolved form, and otherwise raises a
  \<^verbatim>\<open>PathNotAllowedError\<close> built from the original input \<open>p\<close>, not from the resolved form;
  it raises in no other case, and the error's message quotes \<open>p\<close>.
\<close>

theorem validatePath_result:
  "validatePath st cwd p =
     (if isPathAllowed st cwd (path_resolve cwd p) then Inr (path_resolve cwd p)
      else Inl (PathNotAllowedError p))
   \<and> pathNotAllowed_message p =
       ''Path not allowed: '' @ p @ ''. Must be within ALLOWED_ROOT_DIRECTORY or DATA_DIR.''"
  by (simp add: validatePath_def pathNotAllowed_message_def Let_def)

text \<open>
  Claim C10. \<^verbatim>\<open>initAllowedPaths\<close> leaves a boundary as it was (\<^verbatim>\<open>null\<close> when the module
  was just loaded) when its environment variable is unset or empty, and otherwise sets it
  to the value resolved against the working directory, which is an absolute path; it
  selects the permissive mode exactly when \<^verbatim>\<open>SECURITY_MODE\<close> lower-cases to
  \<^verbatim>\<open>permissive\<close> and the strict mode for every other value, a misspelling or the empty
  string included. It is a total function of the configuration: no input makes it fail.
\<close>

theorem initAllowedPaths_result:
  "securityMode (initAllowedPaths env cwd st) =
     (if \<exists>v. env ''SECURITY_MODE'' = Some v \<and> toLowerCase v = ''permissive'' then Permissive
      else Strict)
   \<and> allowedRootDirectory (initAllowedPaths env cwd st) =
       (case env ''ALLOWED_ROOT_DIRECTORY'' of
          None \<Rightarrow> allowedRootDirectory st
        | Some d \<Rightarrow> if d = [] then allowedRootDirectory st else Some (path_resolve cwd d))
   \<and> dataDirectory (initAllowedPaths env cwd st) =
       (case env ''DATA_DIR'' of
          None \<Rightarrow> dataDirectory st
        | Some d \<Rightarrow> if d = [] then dataDirectory st else Some (path_resolve cwd d))
   \<and> allowedRootDirectory initial_state = None \<and> dataDirectory initial_state = None
   \<and> (isAbsolute cwd \<longrightarrow> (\<forall>d. isAbsolute (path_resolve cwd d)))"
  by (auto simp: initAllowedPaths_def initial_state_def Let_def path_resolve_isAbsolute
      split: option.splits)

theorem initAllowedPaths_result_witness:
  "initAllowedPaths env_example ''/srv/app'' initial_state =
     \<lparr>securityMode = Strict, allowedRootDirectory = Some ''/srv/app/projects'',
      dataDirectory = None\<rparr>
   \<and> isAbsolute ''/srv/app/projects''"
proof -
  have abs: "isAbsolute ''/srv/app''" by code_simp
  have r: "path_resolve ''/srv/app'' ''projects'' = ''/srv/app/projects''" by code_simp
  have l: "toLowerCase ''Permisive'' \<noteq> ''permissive''" by code_simp
  from abs initAllowedPaths_result [of env_example "''/srv/app''" initial_state]
  have "isAbsolute (path_resolve ''/srv/app'' ''projects'')" by blast
  moreover from l r initAllowedPaths_result [of env_example "''/srv/app''" initial_state]
  have "initAllowedPaths env_example ''/srv/app'' initial_state =
     \<lparr>securityMode = Strict, allowedRootDirectory = Some ''/srv/app/projects'',
      dataDirectory = None\<rparr>"
    by (simp add: env_example_def)
  ultimately show ?thesis using r by simp
qed

text \<open>
  Claim C4. Every adapter operation selects its validator by operation class:
  \<^verbatim>\<open>access\<close>, \<^verbatim>\<open>readFile\<close>, \<^verbatim>\<open>readdir\<close>, \<^verbatim>\<open>stat\<close>, \<^verbatim>\<open>rm\<close> and \<^verbatim>\<open>unlink\<close> call
  \<^verbatim>\<open>validatePathWithSymlinkCheck\<close> with \<^verbatim>\<open>requireExists\<close> true (they pass no options, and
  the default is true); \<^verbatim>\<open>writeFile\<close>, \<^verbatim>\<open>mkdir\<close> and \<^verbatim>\<open>appendFile\<close> call it with
  \<^verbatim>\<open>requireExists\<close> false; \<^verbatim>\<open>copyFile\<close> and \<^verbatim>\<open>rename\<close> validate the source with true and
  then the destination with false; \<^verbatim>\<open>lstat\<close> alone uses \<^verbatim>\<open>validatePath\<close>.
\<close>

theorem adapter_validator_selection:
  "access st fs cwd p m =
     map_sum id (\<lambda>v. FsAccess v m) (validatePathWithSymlinkCheck st fs cwd p (Some True))
   \<and> readFile st fs cwd p enc =
     map_sum id (\<lambda>v. FsReadFile v (if truthy enc then enc else None))
       (validatePathWithSymlinkCheck st fs cwd p (Some True))
   \<and> readdir st fs cwd p ro =
     map_sum id (\<lambda>v. FsReaddir v (map_option fst ro = Some (Some True)))
       (validatePathWithSymlinkCheck st fs cwd p (Some True))
   \<and> stat st fs cwd p =
     map_sum id FsStat (validatePathWithSymlinkCheck st fs cwd p (Some True))
   \<and> rm st fs cwd p rmo =
     map_sum id (\<lambda>v. FsRm v rmo) (validatePathWithSymlinkCheck st fs cwd p (Some True))
   \<and> unlink st fs cwd p =
     map_sum id FsUnlink (validatePathWithSymlinkCheck st fs cwd p (Some True))
   \<and> writeFile st fs cwd p dat enc =
     map_sum id (\<lambda>v. FsWriteFile v dat enc) (validatePathWithSymlinkCheck st fs cwd p (Some False))
   \<and> mkdir st fs cwd p mo =
     map_sum id (\<lambda>v. FsMkdir v mo) (validatePathWithSymlinkCheck st fs cwd p (Some False))
   \<and> appendFile st fs cwd p dat enc =
     map_sum id (\<lambda>v. FsAppendFile v dat enc) (validatePathWithSymlinkCheck st fs cwd p (Some False))
   \<and> copyFile st fs cwd p p' m =
     (case validatePathWithSymlinkCheck st fs cwd p (Some True) of
        Inl e \<Rightarrow> Inl e
      | Inr v \<Rightarrow> map_sum id (\<lambda>v'. FsCopyFile v v' m)
                  (validatePathWithSymlinkCheck st fs cwd p' (Some False)))
   \<and> rename st fs cwd p p' =
     (case validatePathWithSymlinkCheck st fs cwd p (Some True) of
        Inl e \<Rightarrow> Inl e
      | Inr v \<Rightarrow> map_sum id (\<lambda>v'. FsRename v v')
                  (validatePathWithSymlinkCheck st fs cwd p' (Some False)))
   \<and> lstat st cwd p = map_sum id FsLstat (validatePath st cwd p)"
  unfolding access_def readFile_def readdir_def stat_def rm_def unlink_def writeFile_def
    mkdir_def appendFile_def copyFile_def rename_def lstat_def requireExists_default
  by (simp split: sum.splits)

text \<open>
  Claim C5. For every adapter operation and every path argument: when the validation of a
  path argument fails, the operation fails with that error and issues no filesystem call
  of its own (for \<^verbatim>\<open>copyFile\<close> and \<^verbatim>\<open>rename\<close> also when only the destination fails); when
  validation succeeds, the path arguments of the call issued are the paths the validator
  returned, in order, not the strings the caller supplied.
\<close>

theorem adapter_validate_then_delegate:
  "(\<forall>e. validatePathWithSymlinkCheck st fs cwd p None = Inl e \<longrightarrow>
        access st fs cwd p m = Inl e \<and> readFile st fs cwd p enc = Inl e
      \<and> readdir st fs cwd p ro = Inl e \<and> stat st fs cwd p = Inl e
      \<and> rm st fs cwd p rmo = Inl e \<and> unlink st fs cwd p = Inl e
      \<and> copyFile st fs cwd p p' m = Inl e \<and> rename st fs cwd p p' = Inl e)
   \<and> (\<forall>v. validatePathWithSymlinkCheck st fs cwd p None = Inr v \<longrightarrow>
        issued_paths (access st fs cwd p m) = Inr [v]
      \<and> issued_paths (readFile st fs cwd p enc) = Inr [v]
      \<and> issued_paths (readdir st fs cwd p ro) = Inr [v]
      \<and> issued_paths (stat st fs cwd p) = Inr [v]
      \<and> issued_paths (rm st fs cwd p rmo) = Inr [v]
      \<and> issued_paths (unlink st fs cwd p) = Inr [v]
      \<and> (\<forall>e. validatePathWithSymlinkCheck st fs cwd p' (Some False) = Inl e \<longrightarrow>
            copyFile st fs cwd p p' m = Inl e \<and> rename st fs cwd p p' = Inl e)
      \<and> (\<forall>v'. validatePathWithSymlinkCheck st fs cwd p' (Some False) = Inr v' \<longrightarrow>
            issued_paths (copyFile st fs cwd p p' m) = Inr [v, v']
          \<and> issued_paths (rename st fs cwd p p') = Inr [v, v']))
   \<and> (\<forall>e. validatePathWithSymlinkCheck st fs cwd p (Some False) = Inl e \<longrightarrow>
        writeFile st fs cwd p dat enc = Inl e \<and> mkdir st fs cwd p mo = Inl e
      \<and> appendFile st fs cwd p dat enc = Inl e)
   \<and> (\<forall>v. validatePathWithSymlinkCheck st fs cwd p (Some False) = Inr v \<longrightarrow>
        issued_paths (writeFile st fs cwd p dat enc) = Inr [v]
      \<and> issued_paths (mkdir st fs cwd p mo) = Inr [v]
      \<and> issued_paths (appendFile st fs cwd p dat enc) = Inr [v])
   \<and> (\<forall>e. validatePath st cwd p = Inl e \<longrightarrow> lstat st cwd p = Inl e)
   \<and> (\<forall>v. validatePath st cwd p = Inr v \<longrightarrow> issued_paths (lstat st cwd p) = Inr [v])"
  unfolding access_def readFile_def readdir_def stat_def rm_def unlink_def writeFile_def
    mkdir_def appendFile_def copyFile_def rename_def lstat_def issued_paths_def
  by (simp split: sum.splits)

theorem adapter_validate_then_delegate_witness:
  "writeFile strict_allowed linked_fs ''/srv'' ''/etc/a.txt'' ''x'' None =
     Inl (PathNotAllowedError ''/etc/a.txt (parent resolves to /etc)'')
   \<and> issued_paths (writeFile strict_allowed linked_fs ''/srv'' ''/allowed/x/../new.txt'' ''x'' None)
       = Inr [''/allowed/new.txt'']
   \<and> issued_paths (copyFile strict_allowed linked_fs ''/srv'' ''/allowed/./notes.txt''
        ''/allowed/x/../new.txt'' None) = Inr [''/allowed/notes.txt'', ''/allowed/new.txt'']
   \<and> copyFile strict_allowed linked_fs ''/srv'' ''/allowed/./notes.txt'' ''/etc/a.txt'' None =
       Inl (PathNotAllowedError ''/etc/a.txt (parent resolves to /etc)'')"
proof -
  have bad: "validatePathWithSymlinkCheck strict_allowed linked_fs ''/srv'' ''/etc/a.txt'' (Some False)
      = Inl (PathNotAllowedError ''/etc/a.txt (parent resolves to /etc)'')"
    by code_simp
  have new: "validatePathWithSymlinkCheck strict_allowed linked_fs ''/srv'' ''/allowed/x/../new.txt''
      (Some False) = Inr ''/allowed/new.txt''"
    by code_simp
  have old: "validatePathWithSymlinkCheck strict_allowed linked_fs ''/srv'' ''/allowed/./notes.txt''
      None = Inr ''/allowed/notes.txt''"
    by code_simp
  from bad adapter_validate_then_delegate [where st = strict_allowed and fs = linked_fs
      and cwd = "''/srv''" and p = "''/etc/a.txt''" and dat = "''x''" and enc = None]
  have 1: "writeFile strict_allowed linked_fs ''/srv'' ''/etc/a.txt'' ''x'' None =
     Inl (PathNotAllowedError ''/etc/a.txt (parent resolves to /etc)'')"
    by blast
  from new adapter_validate_then_delegate [where st = strict_allowed and fs = linked_fs
      and cwd = "''/srv''" and p = "''/allowed/x/../new.txt''" and dat = "''x''" and enc = None]
  have 2: "issued_paths (writeFile strict_allowed linked_fs ''/srv'' ''/allowed/x/../new.txt'' ''x'' None)
       = Inr [''/allowed/new.txt'']"
    by blast
  from old new adapter_validate_then_delegate [where st = strict_allowed and fs = linked_fs
      and cwd = "''/srv''" and p = "''/allowed/./notes.txt''" and m = None
      and p' = "''/allowed/x/../new.txt''"]
  have 3: "issued_paths (copyFile strict_allowed linked_fs ''/srv'' ''/allowed/./notes.txt''
        ''/allowed/x/../new.txt'' None) = Inr [''/allowed/notes.txt'', ''/allowed/new.txt'']"
    by blast
  from old bad adapter_validate_then_delegate [where st = strict_allowed and fs = linked_fs
      and cwd = "''/srv''" and p = "''/allowed/./notes.txt''" and m = None
      and p' = "''/etc/a.txt''"]
  have 4: "copyFile strict_allowed linked_fs ''/srv'' ''/allowed/./notes.txt'' ''/etc/a.txt'' None =
       Inl (PathNotAllowedError ''/etc/a.txt (parent resolves to /etc)'')"
    by blast
  from 1 2 3 4 show ?thesis by simp
qed

text \<open>
  Claim C8. The containment check compares a string prefix of the relative path, not its
  first segment: \<^verbatim>\<open>isPathWithinDirectory(candidate, boundary)\<close> is false whenever
  \<^verbatim>\<open>path.relative(boundary, candidate)\<close> begins with the two characters \<^verbatim>\<open>..\<close>. So a
  genuine descendant of the boundary whose first component below it has a name starting
  with \<^verbatim>\<open>..\<close> is rejected by the primitive, and denied by \<^verbatim>\<open>isPathAllowed\<close> when that
  boundary is the allowed root and the data directory does not contain the path.
\<close>

theorem dotdot_named_descendant_denied:
  "(startsWith (path_relative cwd b c) ''..'' \<longrightarrow> \<not> isPathWithinDirectory cwd c b)
   \<and> ((\<forall>x \<in> set (bs @ s # rest). clean_segment x) \<and> startsWith s ''..'' \<longrightarrow>
         strict_prefix bs (bs @ s # rest)
       \<and> \<not> isPathWithinDirectory cwd (absolute_path (bs @ s # rest)) (absolute_path bs)
       \<and> (allowedRootDirectory st = Some (absolute_path bs)
            \<and> \<not> configured_and_within cwd (absolute_path (bs @ s # rest)) (dataDirectory st)
          \<longrightarrow> \<not> isPathAllowed st cwd (absolute_path (bs @ s # rest))))"
proof (intro conjI impI)
  assume "startsWith (path_relative cwd b c) ''..''"
  then show "\<not> isPathWithinDirectory cwd c b"
    by (simp add: isPathWithinDirectory_def)
next
  assume a: "(\<forall>x \<in> set (bs @ s # rest). clean_segment x) \<and> startsWith s ''..''"
  show "strict_prefix bs (bs @ s # rest)" by (simp add: strict_prefix_def)
  from a have cb: "\<forall>x \<in> set bs. clean_segment x"
    and cc: "\<forall>x \<in> set (bs @ s # rest). clean_segment x" by simp_all
  show w: "\<not> isPathWithinDirectory cwd (absolute_path (bs @ s # rest)) (absolute_path bs)"
    using a by (simp add: isPathWithinDirectory_resolved [OF cb cc])
  assume r: "allowedRootDirectory st = Some (absolute_path bs)
      \<and> \<not> configured_and_within cwd (absolute_path (bs @ s # rest)) (dataDirectory st)"
  have res: "path_resolve cwd (absolute_path (bs @ s # rest)) = absolute_path (bs @ s # rest)"
    unfolding absolute_path_def by (rule path_resolve_root_join [OF cc])
  have "truthy (allowedRootDirectory st)"
    using r by (simp add: absolute_path_def)
  with r w show "\<not> isPathAllowed st cwd (absolute_path (bs @ s # rest))"
    unfolding isPathAllowed_def res Let_def by (simp add: configured_and_within_def)
qed

theorem dotdot_named_descendant_denied_witness:
  "startsWith (path_relative ''/srv'' ''/allowed'' ''/allowed/..cfg'') ''..''
   \<and> strict_prefix [''allowed''] [''allowed'', ''..cfg'']
   \<and> \<not> isPathWithinDirectory ''/srv'' ''/allowed/..cfg'' ''/allowed''
   \<and> \<not> isPathAllowed strict_allowed ''/srv'' ''/allowed/..cfg''"
proof -
  have c: "(\<forall>x \<in> set ([''allowed''] @ ''..cfg'' # []). clean_segment x) \<and> startsWith ''..cfg'' ''..''"
    by (simp add: clean_segment_def startsWith_def)
  have r: "allowedRootDirectory strict_allowed = Some (absolute_path [''allowed''])
      \<and> \<not> configured_and_within ''/srv'' (absolute_path ([''allowed''] @ ''..cfg'' # []))
            (dataDirectory strict_allowed)"
    by (simp add: strict_allowed_def absolute_path_def configured_and_within_def)
  have p: "absolute_path ([''allowed''] @ ''..cfg'' # []) = ''/allowed/..cfg''"
    "absolute_path [''allowed''] = ''/allowed''"
    by (simp_all add: absolute_path_def)
  have s: "startsWith (path_relative ''/srv'' ''/allowed'' ''/allowed/..cfg'') ''..''"
    by code_simp
  from c r dotdot_named_descendant_denied [of "''/srv''" "''/allowed''" "''/allowed/..cfg''"
      "[''allowed'']" "''..cfg''" "[]" strict_allowed]
  have "strict_prefix [''allowed''] ([''allowed''] @ ''..cfg'' # [])
      \<and> \<not> isPathWithinDirectory ''/srv'' (absolute_path ([''allowed''] @ ''..cfg'' # []))
            (absolute_path [''allowed''])
      \<and> \<not> isPathAllowed strict_allowed ''/srv'' (absolute_path ([''allowed''] @ ''..cfg'' # []))"
    by blast
  with s show ?thesis unfolding p by simp
qed

text \<open>
  Claim C2. \<^verbatim>\<open>isPathWithinDirectory\<close> accepts the boundary itself, with or without a
  trailing separator, and rejects a sibling that shares a name prefix with the boundary;
  it does not accept every descendant. The path \<^verbatim>\<open>/allowed/..cfg\<close> lies directly below
  \<^verbatim>\<open>/allowed\<close>, its relative path is \<^verbatim>\<open>..cfg\<close>, and the check rejects it, while the same
  kind of name one level deeper, \<^verbatim>\<open>/allowed/foo/..bar\<close>, is accepted, as the test suite
  expects of a valid file name.
\<close>

theorem isPathWithinDirectory_dotdot_name:
  "path_segments ''/allowed/..cfg'' = path_segments ''/allowed'' @ [''..cfg'']
   \<and> path_relative ''/srv'' ''/allowed'' ''/allowed/..cfg'' = ''..cfg''
   \<and> isPathWithinDirectory ''/srv'' ''/allowed/..cfg'' ''/allowed'' = False
   \<and> isPathWithinDirectory ''/srv'' ''/allowed/foo/..bar'' ''/allowed'' = True
   \<and> isPathWithinDirectory ''/srv'' ''/allowed'' ''/allowed'' = True
   \<and> isPathWithinDirectory ''/srv'' ''/allowed/'' ''/allowed'' = True
   \<and> isPathWithinDirectory ''/srv'' ''/allowed/sub/file.txt'' ''/allowed'' = True
   \<and> isPathWithinDirectory ''/srv'' ''/allowed2'' ''/allowed'' = False"
  by code_simp

text \<open>
  Claim C3, as stated, fails. In \<open>linked_fs\<close> the path \<^verbatim>\<open>/allowed/link/sub/new.txt\<close> does
  not exist, its nearest existing ancestor is the symbolic link \<^verbatim>\<open>/allowed/link\<close>, whose
  real path \<^verbatim>\<open>/etc\<close> is outside the allowed root; the validator does not walk that far:
  the parent \<^verbatim>\<open>/allowed/link/sub\<close> is missing too, so it falls back to \<^verbatim>\<open>validatePath\<close>
  and returns the nominal path.
\<close>

theorem nearest_ancestor_not_walked:
  "lstatSync linked_fs (path_resolve ''/srv'' ''/allowed/link/sub/new.txt'') = Inl ENOENT
   \<and> nearest_existing_ancestor linked_fs (path_resolve ''/srv'' ''/allowed/link/sub/new.txt'')
       = Some ''/allowed/link''
   \<and> realpathSync linked_fs ''/allowed/link'' = Inr ''/etc''
   \<and> \<not> isPathAllowed strict_allowed ''/srv'' ''/etc''
   \<and> validatePathWithSymlinkCheck strict_allowed linked_fs ''/srv'' ''/allowed/link/sub/new.txt''
         (Some False) = Inr ''/allowed/link/sub/new.txt''
   \<and> \<not> validates_nearest_ancestor strict_allowed linked_fs ''/srv'' ''/allowed/link/sub/new.txt''"
  by code_simp

text \<open>
  Claim C3, amended. For a path \<open>p\<close> whose resolved form does not exist,
  \<^verbatim>\<open>validatePathWithSymlinkCheck(p, {requireExists: false})\<close> looks at the immediate parent
  directory only. When the parent's real path resolves, that real path is validated for
  containment and the result is the base name re-attached under it, or a
  \<^verbatim>\<open>PathNotAllowedError\<close> naming the real parent. When the parent does not exist either,
  the result is that of \<^verbatim>\<open>validatePath(p)\<close>, which follows no symbolic link. Any other
  error of resolving the parent is raised.
\<close>

theorem validatePathWithSymlinkCheck_missing:
  assumes "lstatSync fs (path_resolve cwd p) = Inl ENOENT"
  shows "validatePathWithSymlinkCheck st fs cwd p (Some False) =
     (case realpathSync fs (dirname (path_resolve cwd p)) of
        Inr realParentPath \<Rightarrow>
          if isPathAllowed st cwd realParentPath then
            Inr (path_join [realParentPath, basename (path_resolve cwd p)])
          else Inl (PathNotAllowedError (p @ '' (parent resolves to '' @ realParentPath @ '')''))
      | Inl e \<Rightarrow> if e = ENOENT then validatePath st cwd p else Inl (ErrnoException e))"
proof -
  have ex: "check_existing st fs cwd p (path_resolve cwd p) = Inl (ErrnoException ENOENT)"
    using assms by (simp add: check_existing_def)
  show ?thesis
  proof (cases "realpathSync fs (dirname (path_resolve cwd p))")
    case (Inl e)
    then have "check_parent st fs cwd p (path_resolve cwd p) = Inl (ErrnoException e)"
      by (simp add: check_parent_def)
    with ex Inl show ?thesis
      by (simp add: validatePathWithSymlinkCheck_def)
  next
    case (Inr realParentPath)
    then have "check_parent st fs cwd p (path_resolve cwd p) =
        (if isPathAllowed st cwd realParentPath then
           Inr (path_join [realParentPath, basename (path_resolve cwd p)])
         else Inl (PathNotAllowedError (p @ '' (parent resolves to '' @ realParentPath @ '')'')))"
      by (simp add: check_parent_def)
    with ex Inr show ?thesis
      by (simp add: validatePathWithSymlinkCheck_def)
  qed
qed

theorem validatePathWithSymlinkCheck_missing_witness:
  "validatePathWithSymlinkCheck strict_allowed linked_fs ''/srv'' ''/allowed/link/new.txt''
     (Some False) = Inl (PathNotAllowedError ''/allowed/link/new.txt (parent resolves to /etc)'')
   \<and> validatePathWithSymlinkCheck strict_allowed linked_fs ''/srv'' ''/allowed/x/../new.txt''
     (Some False) = Inr ''/allowed/new.txt''
   \<and> validatePathWithSymlinkCheck strict_allowed linked_fs ''/srv'' ''/allowed/link/sub/new.txt''
     (Some False) = validatePath strict_allowed ''/srv'' ''/allowed/link/sub/new.txt''"
proof -
  have m1: "lstatSync linked_fs (path_resolve ''/srv'' ''/allowed/link/new.txt'') = Inl ENOENT"
    by code_simp
  have m2: "lstatSync linked_fs (path_resolve ''/srv'' ''/allowed/x/../new.txt'') = Inl ENOENT"
    by code_simp
  have m3: "lstatSync linked_fs (path_resolve ''/srv'' ''/allowed/link/sub/new.txt'') = Inl ENOENT"
    by code_simp
  have p1: "realpathSync linked_fs (dirname (path_resolve ''/srv'' ''/allowed/link/new.txt''))
      = Inr ''/etc''"
    by code_simp
  have a1: "\<not> isPathAllowed strict_allowed ''/srv'' ''/etc''"
    by code_simp
  have p2: "realpathSync linked_fs (dirname (path_resolve ''/srv'' ''/allowed/x/../new.txt''))
      = Inr ''/allowed''"
    by code_simp
  have a2: "isPathAllowed strict_allowed ''/srv'' ''/allowed''"
    by code_simp
  have j2: "path_join [''/allowed'', basename (path_resolve ''/srv'' ''/allowed/x/../new.txt'')]
      = ''/allowed/new.txt''"
    by code_simp
  have p3: "realpathSync linked_fs (dirname (path_resolve ''/srv'' ''/allowed/link/sub/new.txt''))
      = Inl ENOENT"
    by code_simp
  have 1: "validatePathWithSymlinkCheck strict_allowed linked_fs ''/srv'' ''/allowed/link/new.txt''
     (Some False) = Inl (PathNotAllowedError ''/allowed/link/new.txt (parent resolves to /etc)'')"
    unfolding validatePathWithSymlinkCheck_missing [OF m1] p1 using a1 by simp
  have 2: "validatePathWithSymlinkCheck strict_allowed linked_fs ''/srv'' ''/allowed/x/../new.txt''
     (Some False) = Inr ''/allowed/new.txt''"
    unfolding validatePathWithSymlinkCheck_missing [OF m2] p2 using a2 j2 by simp
  have 3: "validatePathWithSymlinkCheck strict_allowed linked_fs ''/srv'' ''/allowed/link/sub/new.txt''
     (Some False) = validatePath strict_allowed ''/srv'' ''/allowed/link/sub/new.txt''"
    unfolding validatePathWithSymlinkCheck_missing [OF m3] p3 by simp
  from 1 2 3 show ?thesis by simp
qed

text \<open>
  Claim C1. The claim is that \<^verbatim>\<open>isPathAllowed(p)\<close> is true if and only if the resolved form
  of \<open>p\<close> is contained in the data directory, or contained in the allowed root directory,
  or the root is unset and the mode is permissive. The code allows nothing the rule does
  not allow (\<open>isPathAllowed_sound\<close>), but it denies paths the rule allows: with the data
  directory \<^verbatim>\<open>/data\<close> and no root in strict mode, the already resolved path
  \<^verbatim>\<open>/data/..cache/settings.json\<close> is contained in the data directory and is denied; so is
  \<^verbatim>\<open>/allowed/..cfg\<close> under the root \<^verbatim>\<open>/allowed\<close>. By \<open>isPathAllowed_complete_unless_dotdot\<close>
  every such path has, directly below a boundary, a component whose name starts with
  \<^verbatim>\<open>..\<close>: the string-prefix test of \<^verbatim>\<open>isPathWithinDirectory\<close>.
\<close>

theorem isPathAllowed_denies_contained:
  "path_resolve ''/srv'' ''/data/..cache/settings.json'' = ''/data/..cache/settings.json''
   \<and> spec_contained ''/srv'' ''/data/..cache/settings.json'' ''/data''
   \<and> spec_isAllowed strict_data_only ''/srv'' ''/data/..cache/settings.json''
   \<and> isPathAllowed strict_data_only ''/srv'' ''/data/..cache/settings.json'' = False
   \<and> spec_isAllowed strict_allowed ''/srv'' ''/allowed/..cfg''
   \<and> isPathAllowed strict_allowed ''/srv'' ''/allowed/..cfg'' = False"
  by code_simp

text \<open>
  Claim C7. The claim is that \<^verbatim>\<open>validatePath\<close> returns every already-resolved absolute path
  inside a configured boundary unchanged. \<^verbatim>\<open>/allowed/..cfg\<close> is resolved, absolute and
  contained in the root \<^verbatim>\<open>/allowed\<close>, and \<^verbatim>\<open>validatePath\<close> throws for it. The idempotence
  half of the claim holds (\<open>validatePath_accepted_idem\<close>), and a contained path is rejected
  only for a component directly below a boundary whose name starts with \<^verbatim>\<open>..\<close>
  (\<open>validatePath_rejects_only_dotdot\<close>).
\<close>

theorem validatePath_rejects_contained:
  "path_resolve ''/srv'' ''/allowed/..cfg'' = ''/allowed/..cfg''
   \<and> isAbsolute ''/allowed/..cfg''
   \<and> spec_contained_in ''/srv'' ''/allowed/..cfg'' (allowedRootDirectory strict_allowed)
   \<and> validatePath strict_allowed ''/srv'' ''/allowed/..cfg''
       = Inl (PathNotAllowedError ''/allowed/..cfg'')"
  by code_simp




end
